theory Spec2Isabelle
  imports Main
begin

section \<open>JavaScript strings and numbers as transform.mjs uses them\<close>

text \<open>
  A JavaScript string is a sequence of UTF-16 code units; \<open>charCodeAt\<close> reads one of them
  as a number and the source compares it with decimal constants (\<open>c === 64\<close>). A string
  is therefore a list of code units, each a natural number. \<open>str\<close> writes an ASCII literal.
\<close>

type_synonym jstring = "nat list"

definition str :: "string \<Rightarrow> jstring" where
  "str s = map of_char s"

text \<open>\<open>charCodeAt\<close> returns \<open>NaN\<close> outside the string: \<open>None\<close> here.\<close>

definition charCodeAt :: "jstring \<Rightarrow> int \<Rightarrow> nat option" where
  "charCodeAt s i = (if 0 \<le> i \<and> i < int (length s) then Some (s ! nat i) else None)"

text \<open>
  \<open>String.prototype.slice(start, end)\<close>: a negative index counts from the end, both are
  clamped to the string, and an empty string results when \<open>end\<close> is not after \<open>start\<close>.
\<close>

definition slice :: "jstring \<Rightarrow> int \<Rightarrow> int \<Rightarrow> jstring" where
  "slice s b e =
     (let n = int (length s);
          from = (if b < 0 then max (n + b) 0 else min b n);
          to = (if e < 0 then max (n + e) 0 else min e n)
      in take (nat (to - from)) (drop (nat from) s))"

definition slice_from :: "jstring \<Rightarrow> int \<Rightarrow> jstring" where
  "slice_from s b = slice s b (int (length s))"

text \<open>\<open>String.prototype.indexOf\<close> of one code unit; \<open>None\<close> is the source's \<open>-1\<close>.\<close>

fun indexOf :: "jstring \<Rightarrow> nat \<Rightarrow> nat option" where
  "indexOf [] c = None"
| "indexOf (x # xs) c = (if x = c then Some 0 else map_option Suc (indexOf xs c))"

text \<open>Number to string, as template literals and \<open>+\<close> on strings print an integer.\<close>

fun decimal :: "nat \<Rightarrow> jstring" where
  "decimal n = (if n < 10 then [48 + n] else decimal (n div 10) @ [48 + n mod 10])"

declare decimal.simps [simp del]

definition toString :: "int \<Rightarrow> jstring" where
  "toString n = (if n < 0 then 45 # decimal (nat (- n)) else decimal (nat n))"

text \<open>
  The values \<open>details.markers.pattern[0]\<close> takes in \<open>parseNetworkFilter\<close>: the number
  \<open>-1\<close> it starts with, the one-element array \<open>[i]\<close> the whitespace loop stores, and the
  string that \<open>+=\<close> makes of an array and a number.
\<close>

datatype jsval = JNumber int | JArray1 int | JString jstring

text \<open>
  \<open>v += n\<close> for a number \<open>n\<close>: addition on a number; an array or a string operand makes
  \<open>+\<close> the string concatenation, the array \<open>[i]\<close> printing as \<open>i\<close>.
\<close>

fun js_add :: "jsval \<Rightarrow> int \<Rightarrow> jsval" where
  "js_add (JNumber a) n = JNumber (a + n)"
| "js_add (JArray1 a) n = JString (toString a @ toString n)"
| "js_add (JString s) n = JString (s @ toString n)"

definition isNumeric :: "nat \<Rightarrow> bool" where
  "isNumeric c = (c \<ge> 48 \<and> c \<le> 57)"

text \<open>
  \<open>ToIntegerOrInfinity\<close>, which \<open>slice\<close> applies to its arguments. A string of decimal
  digits reads as its number (leading zeros allowed); the strings \<open>js_add\<close> builds here
  are of this kind, and any other string is read as \<open>NaN\<close>, that is \<open>0\<close>.
\<close>

fun toInteger :: "jsval \<Rightarrow> int" where
  "toInteger (JNumber n) = n"
| "toInteger (JArray1 n) = n"
| "toInteger (JString s) =
     (if s \<noteq> [] \<and> list_all isNumeric s
      then int (foldl (\<lambda>a d. 10 * a + (d - 48)) 0 s) else 0)"

section \<open>The filter parser\<close>

datatype error = SyntaxError jstring "int option" | OtherError jstring

text \<open>
  \<open>SyntaxError message pos\<close> is the source's own error class (a \<open>ProgramError\<close>);
  its constructor stores the second argument in \<open>pos\<close>, which is \<open>undefined\<close> (\<open>None\<close>)
  when the error is made with the message alone.
  \<open>OtherError text\<close> is any other thrown value, one that is not
  \<open>instanceof SyntaxError\<close>, such as the built-in \<open>RangeError\<close> and \<open>TypeError\<close>; it
  carries the text \<open>${e}\<close> prints. \<open>error_toString\<close> is that text: for the source's
  class, the name, a colon and the message.
\<close>

fun error_toString :: "error \<Rightarrow> jstring" where
  "error_toString (SyntaxError m p) = str ''SyntaxError: '' @ m"
| "error_toString (OtherError m) = m"

record network_filter =
  line :: jstring
  pattern :: jstring
  modifiers :: "(jstring \<times> jstring option) list"
  isException :: bool
  matchSubdomains :: bool
  matchBeginningOfAddress :: bool
  matchEndOfAddress :: bool
  markers_pattern :: "jsval \<times> int"
  markers_modifiers :: "((nat \<times> nat) \<times> (nat \<times> nat) option) list"

text \<open>
  The three shapes of record \<open>parseFilter\<close> returns, by their \<open>type\<close> field:
  \<open>Others line\<close>, \<open>Network details\<close>, and
  \<open>Cosmetic line hostname selector isException\<close>.
\<close>

datatype filter_record =
    Others jstring
  | Network network_filter
  | Cosmetic jstring jstring jstring bool

definition isWhitespace :: "nat \<Rightarrow> bool" where
  "isWhitespace c = (c \<le> 32 \<or> c = 127)"

subsection \<open>parseCosmeticFilter\<close>

text \<open>
  The marker loop from \<open>i + 1\<close>: \<open>@\<close> sets the exception flag, \<open>#\<close> ends the marker
  (the selector starts after it), anything else throws. The result is the index the
  selector starts at and the flag. When the line ends first, the loop just ends.
\<close>

text \<open>
  The error is thrown as \<open>new SyntaxError(message)\<close>, with no position argument: its
  \<open>pos\<close> is \<open>undefined\<close>, and the position is in the message only.
\<close>

definition marker_error :: "jstring \<Rightarrow> nat \<Rightarrow> error" where
  "marker_error ln i =
     SyntaxError (str ''Expected '' @ [34, 35, 34] @ str '' or '' @ [34, 64, 34]
        @ str '' for cosmetic filter marker but saw '' @ [34, ln ! i, 34]
        @ str '' at position '' @ [34] @ decimal i @ [34, 33]) None"

function cosmetic_marker :: "jstring \<Rightarrow> nat \<Rightarrow> bool \<Rightarrow> error + (nat \<times> bool)" where
  "cosmetic_marker ln i ex =
     (if i < length ln then
        (if ln ! i = 64 then cosmetic_marker ln (i + 1) True
         else if ln ! i = 35 then Inr (i + 1, ex)
         else Inl (marker_error ln i))
      else Inr (i, ex))"
  by pat_completeness auto
termination
  by (relation "measure (\<lambda>(ln, i, ex). length ln - i)") auto

declare cosmetic_marker.simps [simp del]

definition parseCosmeticFilter :: "jstring \<Rightarrow> nat \<Rightarrow> error + filter_record" where
  "parseCosmeticFilter ln i =
     (case cosmetic_marker ln (i + 1) False of
        Inl e \<Rightarrow> Inl e
      | Inr (j, ex) \<Rightarrow> Inr (Cosmetic ln (slice ln 0 (int i)) (slice_from ln (int j)) ex))"

subsection \<open>parseNetworkFilter\<close>

text \<open>
  The whitespace loop declares an \<open>i\<close> of its own (\<open>for (let i = 0; ...)\<close>), so the
  function's \<open>i\<close> stays \<open>0\<close> after it; what the loop leaves is
  \<open>markers.pattern[0]\<close>: the array \<open>[i]\<close> at the first character that is not
  whitespace, or the initial \<open>-1\<close>.
\<close>

function skip_whitespaces :: "jstring \<Rightarrow> nat \<Rightarrow> jsval" where
  "skip_whitespaces ln i =
     (if i < length ln then
        (if isWhitespace (ln ! i) = False then JArray1 (int i)
         else skip_whitespaces ln (i + 1))
      else JNumber (- 1))"
  by pat_completeness auto
termination
  by (relation "measure (\<lambda>(ln, i). length ln - i)") auto

declare skip_whitespaces.simps [simp del]

text \<open>
  The lookahead from a \<open>$\<close>: it stops at \<open>=\<close> (\<open>False\<close>: the \<open>$\<close> stands), at the
  next \<open>$\<close> (\<open>True\<close>: \<open>i\<close> jumps there) or at the end of the line. The first component
  is \<open>k\<close> when the loop is left.
\<close>

function lookahead :: "jstring \<Rightarrow> nat \<Rightarrow> nat \<times> bool" where
  "lookahead ln k =
     (if k < length ln then
        (if ln ! k = 61 then (k, False)
         else if ln ! k = 36 then (k, True)
         else lookahead ln (k + 1))
      else (k, False))"
  by pat_completeness auto
termination
  by (relation "measure (\<lambda>(ln, k). length ln - k)") auto

declare lookahead.simps [simp del]

lemma lookahead_ge: "lookahead ln k = (k', b) \<Longrightarrow> k \<le> k'"
proof (induction ln k rule: lookahead.induct)
  case (1 ln k)
  from "1.prems" show ?case
    by (subst (asm) lookahead.simps) (auto split: if_splits dest: "1.IH")
qed

text \<open>
  The scan for the modifier marker. At a \<open>$\<close> the lookahead runs; when it jumped
  (\<open>i = k\<close>) the scan goes on after the second \<open>$\<close>, otherwise (\<open>i !== k\<close>) it stops at
  this \<open>$\<close>. The result is \<open>i\<close> after the loop: the marker, or the length of the line.
\<close>

function modifier_marker :: "jstring \<Rightarrow> nat \<Rightarrow> nat" where
  "modifier_marker ln i =
     (if i < length ln then
        (if ln ! i = 36 then
           (case lookahead ln (i + 1) of (k, jump) \<Rightarrow>
              (let i' = (if jump then k else i)
               in if i' \<noteq> k then i' else modifier_marker ln (i' + 1)))
         else modifier_marker ln (i + 1))
      else i)"
  by pat_completeness auto
termination
  apply (relation "measure (\<lambda>(ln, i). length ln - i)")
  apply (auto split: if_splits dest!: lookahead_ge [OF sym])
  done

declare modifier_marker.simps [simp del]

text \<open>
  The value loop after a \<open>=\<close>: a backslash is passed over (\<open>continue\<close>), a comma or the
  end of the line (\<open>isNaN(c)\<close>) ends the value. \<open>Some i\<close> is the index at the
  \<open>break\<close>; \<open>None\<close> is the loop running out at \<open>line.length + 1\<close>.
\<close>

function modifier_value :: "jstring \<Rightarrow> nat \<Rightarrow> nat option" where
  "modifier_value ln i =
     (if i < length ln + 1 then
        (case charCodeAt ln (int i) of
           Some c \<Rightarrow>
             (if c = 92 then modifier_value ln (i + 1)
              else if c = 44 then Some i
              else modifier_value ln (i + 1))
         | None \<Rightarrow> Some i)
      else None)"
  by pat_completeness auto
termination
  by (relation "measure (\<lambda>(ln, i). length ln + 1 - i)") auto

declare modifier_value.simps [simp del]

lemma modifier_value_ge: "modifier_value ln i = Some j \<Longrightarrow> i \<le> j"
proof (induction ln i rule: modifier_value.induct)
  case (1 ln i)
  from "1.prems" "1.IH" show ?case
    apply (subst (asm) modifier_value.simps)
    apply (auto split: if_splits option.splits)
    done
qed

text \<open>
  The modifier loop, from \<open>k = ++i\<close>. The accumulator is \<open>markers.modifiers\<close>; the
  source pushes the slices of the same ranges onto \<open>modifiers\<close> at the same moments.
\<close>

function modifier_markers ::
  "jstring \<Rightarrow> nat \<Rightarrow> nat \<Rightarrow> ((nat \<times> nat) \<times> (nat \<times> nat) option) list
     \<Rightarrow> ((nat \<times> nat) \<times> (nat \<times> nat) option) list" where
  "modifier_markers ln k i acc =
     (if i < length ln + 1 then
        (case charCodeAt ln (int i) of
           Some c \<Rightarrow>
             (if c = 61 then
                (case modifier_value ln (i + 1) of
                   Some j \<Rightarrow> modifier_markers ln (j + 1) (j + 1) (acc @ [((k, i), Some (i + 1, j))])
                 | None \<Rightarrow> acc @ [((k, i), None)])
              else if c = 44 then modifier_markers ln (i + 1) (i + 1) (acc @ [((k, i), None)])
              else modifier_markers ln k (i + 1) acc)
         | None \<Rightarrow>
             (if i > k then modifier_markers ln k (i + 1) (acc @ [((k, i), None)])
              else modifier_markers ln k (i + 1) acc))
      else acc)"
  by pat_completeness auto
termination
  apply (relation "measure (\<lambda>(ln, k, i, acc). length ln + 1 - i)")
  apply (auto dest!: modifier_value_ge)
  done

declare modifier_markers.simps [simp del]

definition modifier_slices ::
  "jstring \<Rightarrow> ((nat \<times> nat) \<times> (nat \<times> nat) option) list \<Rightarrow> (jstring \<times> jstring option) list" where
  "modifier_slices ln ms =
     map (\<lambda>((a, b), v). (slice ln (int a) (int b),
            map_option (\<lambda>(c, d). slice ln (int c) (int d)) v)) ms"

definition parseNetworkFilter :: "jstring \<Rightarrow> network_filter" where
  "parseNetworkFilter ln =
     (let start = skip_whitespaces ln 0;
          ex = (charCodeAt ln 0 = Some 64 \<and> charCodeAt ln 1 = Some 64);
          i0 = (if ex then 2 else 0);
          pipe = (charCodeAt ln (int i0) = Some 124);
          sub = (pipe \<and> charCodeAt ln (int i0 + 1) = Some 124);
          boa = (pipe \<and> charCodeAt ln (int i0 + 1) \<noteq> Some 124);
          i1 = (if sub then i0 + 2 else if boa then i0 + 1 else i0);
          i = modifier_marker ln i1;
          eoa = (charCodeAt ln (int i - 1) = Some 124);
          m0 = js_add start (if boa then 1 else if sub then 2 else 0);
          m1 = (if i = length ln then int i else int i - 1);
          ms = modifier_markers ln (i + 1) (i + 1) []
      in \<lparr> line = ln,
           pattern = slice ln (toInteger m0) m1,
           modifiers = modifier_slices ln ms,
           isException = ex,
           matchSubdomains = sub,
           matchBeginningOfAddress = boa,
           matchEndOfAddress = eoa,
           markers_pattern = (m0, m1),
           markers_modifiers = ms \<rparr>)"

subsection \<open>parseFilter\<close>

function classify :: "jstring \<Rightarrow> nat \<Rightarrow> error + filter_record" where
  "classify ln i =
     (if i < length ln then
        (if ln ! i = 91 \<or> ln ! i = 33 then Inr (Others ln)
         else if ln ! i = 47 \<or> ln ! i = 58 \<or> ln ! i = 94 \<or> ln ! i = 64 \<or> ln ! i = 124
           then Inr (Network (parseNetworkFilter ln))
         else if ln ! i = 35 then parseCosmeticFilter ln i
         else classify ln (i + 1))
      else Inr (Network (parseNetworkFilter ln)))"
  by pat_completeness auto
termination
  by (relation "measure (\<lambda>(ln, i). length ln - i)") auto

declare classify.simps [simp del]

definition parseFilter :: "jstring \<Rightarrow> error + filter_record" where
  "parseFilter ln = (if length ln = 0 then Inr (Others ln) else classify ln 0)"

section \<open>The hostname extractor\<close>

definition isRegexpPattern :: "network_filter \<Rightarrow> bool" where
  "isRegexpPattern details =
     (charCodeAt (pattern details) 0 = Some 47
      \<and> charCodeAt (pattern details) (int (length (pattern details)) - 1) = Some 47)"

definition isPathnamePattern :: "nat \<Rightarrow> bool" where
  "isPathnamePattern c = (c = 124 \<or> c = 35 \<or> c = 47 \<or> c = 63 \<or> c = 38)"

definition isAlphabet :: "nat \<Rightarrow> bool" where
  "isAlphabet c = (let c' = (if c \<ge> 97 then c - 32 else c) in c' \<ge> 65 \<and> c' \<le> 90)"

text \<open>
  The loop of \<open>transformToHostnamePattern\<close> over \<open>1 \<le> i < pattern.length + o\<close>
  (\<open>e\<close> here). \<open>None\<close> is the \<open>return null\<close> inside the loop, \<open>Some hasDot\<close> the
  flag when the loop ends. Every \<open>i < e\<close> is inside the pattern; \<open>i + 1\<close> is read with
  \<open>charCodeAt\<close>.
\<close>

function hostname_chars :: "jstring \<Rightarrow> nat \<Rightarrow> nat \<Rightarrow> bool \<Rightarrow> bool option" where
  "hostname_chars p e i hasDot =
     (if i < e then
        (if isPathnamePattern (p ! i) \<or> p ! i = 42 then None
         else if p ! i = 46 then
           (if charCodeAt p (int i + 1) = Some 46 then None
            else hostname_chars p e (i + 1) True)
         else hostname_chars p e (i + 1) hasDot)
      else Some hasDot)"
  by pat_completeness auto
termination
  by (relation "measure (\<lambda>(p, e, i, hasDot). e - i)") auto

declare hostname_chars.simps [simp del]

text \<open>
  \<open>transformToHostnamePattern\<close>; \<open>None\<close> is \<open>null\<close>. After the first test the pattern
  has at least three code units, so the reads at \<open>0\<close> and at \<open>length + o\<close> are inside
  it. \<open>o\<close> is \<open>-1\<close> or \<open>-2\<close> in the source; \<open>back\<close> is its absolute value.
\<close>

definition transformToHostnamePattern :: "network_filter \<Rightarrow> jstring option" where
  "transformToHostnamePattern details =
     (let p = pattern details; n = length p in
      if isRegexpPattern details \<or> matchEndOfAddress details
         \<or> matchBeginningOfAddress details \<or> n < 3 then None
      else if isNumeric (p ! 0) = False \<and> isAlphabet (p ! 0) = False then None
      else
        (let back = (if p ! (n - 1) = 94 then 2 else 1 :: nat) in
         if isAlphabet (p ! (n - back)) = False then None
         else
           (case hostname_chars p (n - back) 1 False of
              None \<Rightarrow> None
            | Some hasDot \<Rightarrow>
                if hasDot = False then None
                else Some (slice p 0
                  (if charCodeAt p (int n - 1) = Some 94 then int n - 1 else int n)))))"

section \<open>The compilers\<close>

definition isThirdpartyConstraint :: "jstring \<Rightarrow> bool" where
  "isThirdpartyConstraint opt = (opt = str ''3p'' \<or> opt = str ''third-party'')"

record opts =
  strict :: bool
  debug :: bool

text \<open>
  A JavaScript \<open>Set\<close> keeps its members in insertion order, each once: a list.
  The members here are what \<open>hostname\<close> holds, a string or \<open>null\<close> (\<open>None\<close>).
\<close>

definition set_add :: "'a \<Rightarrow> 'a list \<Rightarrow> 'a list" where
  "set_add x xs = (if x \<in> set xs then xs else xs @ [x])"

definition set_delete :: "'a \<Rightarrow> 'a list \<Rightarrow> 'a list" where
  "set_delete x xs = removeAll x xs"

text \<open>
  The state of the loop of \<open>compileHosts\<close>: the two sets, and the lines written with
  \<open>console.error\<close>.
\<close>

record hosts_state =
  exceptions :: "jstring option list"
  hostnames :: "jstring option list"
  stderr :: "jstring list"

fun print_hostname :: "jstring option \<Rightarrow> jstring" where
  "print_hostname None = str ''null''"
| "print_hostname (Some h) = h"

text \<open>The \<open>catch\<close> block of both compilers: the line it writes for an error.\<close>

fun catch_message :: "jstring \<Rightarrow> error \<Rightarrow> jstring" where
  "catch_message ln (SyntaxError m p) =
     str ''Invalid filter: line='' @ [34] @ ln @ [34] @ str '' e='' @ [34]
       @ error_toString (SyntaxError m p) @ [34]"
| "catch_message ln (OtherError m) =
     str ''Unknown error: e='' @ [34] @ error_toString (OtherError m) @ [34]"

definition except :: "jstring option \<Rightarrow> hosts_state \<Rightarrow> hosts_state" where
  "except hostname st =
     st\<lparr>exceptions := set_add hostname (exceptions st),
        hostnames := set_delete hostname (hostnames st)\<rparr>"

definition path_level_message :: "jstring option \<Rightarrow> jstring \<Rightarrow> jstring" where
  "path_level_message hostname ln =
     str ''Path-level exception set: hostname='' @ [34] @ print_hostname hostname @ [34]
       @ str '' line='' @ [34] @ ln @ [34]"

text \<open>
  The body of the loop of \<open>compileHosts\<close> for one line. \<open>continue\<close> leaves the state
  as it is. The inner loop over the modifiers stops at the first third-party
  constraint, and \<open>i !== l\<close> after it says that there was one.
\<close>

definition hosts_line :: "opts \<Rightarrow> hosts_state \<Rightarrow> jstring \<Rightarrow> hosts_state" where
  "hosts_line opts st ln =
     (case parseFilter ln of
        Inl e \<Rightarrow> st\<lparr>stderr := stderr st @ [catch_message ln e]\<rparr>
      | Inr (Others _) \<Rightarrow> st
      | Inr (Cosmetic _ _ _ _) \<Rightarrow> st
      | Inr (Network details) \<Rightarrow>
          (let hostname = transformToHostnamePattern details in
           if isException details then
             (if strict opts = False \<and> hostname = None then
                (case indexOf (pattern details) 47 of
                   None \<Rightarrow> st
                 | Some l \<Rightarrow>
                     (let details' = details\<lparr>pattern := slice (pattern details) 0 (int l)\<rparr>;
                          hostname' = transformToHostnamePattern details'
                      in if hostname' = None then st
                         else except hostname'
                           (if debug opts then st\<lparr>stderr := stderr st @ [path_level_message hostname' ln]\<rparr>
                            else st)))
              else except hostname st)
           else if hostname \<noteq> None then
             (if strict opts = False
                 \<and> list_ex (\<lambda>m. isThirdpartyConstraint (fst m)) (modifiers details)
              then except hostname st
              else st\<lparr>hostnames := set_add hostname (hostnames st)\<rparr>)
           else st))"

text \<open>\<open>list.split('\n')\<close> and \<open>output.join('\n')\<close>.\<close>

fun split_lines :: "jstring \<Rightarrow> jstring list" where
  "split_lines [] = [[]]"
| "split_lines (c # cs) =
     (if c = 10 then [] # split_lines cs
      else (case split_lines cs of [] \<Rightarrow> [[c]] | l # ls \<Rightarrow> (c # l) # ls))"

fun join_lines :: "jstring list \<Rightarrow> jstring" where
  "join_lines [] = []"
| "join_lines [x] = x"
| "join_lines (x # y # ys) = x @ 10 # join_lines (y # ys)"

definition hosts_init :: hosts_state where
  "hosts_init = \<lparr>exceptions = [], hostnames = [], stderr = []\<rparr>"

text \<open>
  \<open>compileHosts_lines\<close> is the loop of \<open>compileHosts\<close> over the lines, from the empty
  sets; \<open>compileHosts_state\<close> is the state when the loop over \<open>list.split('\n')\<close> has
  ended; \<open>hosts_output\<close> is the text made of the set \<open>hostnames\<close>, and
  \<open>compileHosts\<close> is the text the function returns.
\<close>

definition compileHosts_lines :: "jstring list \<Rightarrow> opts \<Rightarrow> hosts_state" where
  "compileHosts_lines lns opts = foldl (hosts_line opts) hosts_init lns"

definition compileHosts_state :: "jstring \<Rightarrow> opts \<Rightarrow> hosts_state" where
  "compileHosts_state input opts = compileHosts_lines (split_lines input) opts"

definition hosts_output :: "hosts_state \<Rightarrow> jstring" where
  "hosts_output st =
     join_lines (map (\<lambda>hostname. str ''127.0.0.1 '' @ print_hostname hostname) (hostnames st))"

definition compileHosts :: "jstring \<Rightarrow> opts \<Rightarrow> jstring" where
  "compileHosts input opts = hosts_output (compileHosts_state input opts)"




section \<open>The formatter\<close>

text \<open>
  A diff is the array \<open>[rule, DIFF_TYPE_DELETE, offset, length]\<close> or
  \<open>[rule, DIFF_TYPE_CREATE, offset, text]\<close>. Offsets and lengths are JavaScript numbers
  and can go below zero: integers.
\<close>

datatype diff = Delete jstring int int | Create jstring int jstring

definition FILTER_MODIFIER_TYPE_TABLE :: "(jstring \<times> jstring) list" where
  "FILTER_MODIFIER_TYPE_TABLE =
     [(str ''1p'', str ''first-party''),
      (str ''3p'', str ''third-party''),
      (str ''xhr'', str ''xmlhttprequest'')]"

text \<open>
  \<open>trimStart\<close>, \<open>trimEnd\<close> and \<open>trim\<close> remove ECMAScript white space and line
  terminators, which is not the set of \<open>isWhitespace\<close>.
\<close>

definition isTrimSpace :: "nat \<Rightarrow> bool" where
  "isTrimSpace c =
     (c = 9 \<or> c = 10 \<or> c = 11 \<or> c = 12 \<or> c = 13 \<or> c = 32 \<or> c = 160 \<or> c = 5760
      \<or> (8192 \<le> c \<and> c \<le> 8202) \<or> c = 8232 \<or> c = 8233 \<or> c = 8239 \<or> c = 8287
      \<or> c = 12288 \<or> c = 65279)"

definition trimStart :: "jstring \<Rightarrow> jstring" where
  "trimStart s = dropWhile isTrimSpace s"

definition trimEnd :: "jstring \<Rightarrow> jstring" where
  "trimEnd s = rev (dropWhile isTrimSpace (rev s))"

definition trim :: "jstring \<Rightarrow> jstring" where
  "trim s = trimStart (trimEnd s)"

text \<open>The first loop of \<open>format\<close>: \<open>i\<close> when it is left.\<close>

function leading_whitespaces :: "jstring \<Rightarrow> nat \<Rightarrow> nat" where
  "leading_whitespaces ln i =
     (if i < length ln then
        (if isWhitespace (ln ! i) = False then i else leading_whitespaces ln (i + 1))
      else i)"
  by pat_completeness auto
termination
  by (relation "measure (\<lambda>(ln, i). length ln - i)") auto

declare leading_whitespaces.simps [simp del]

text \<open>The second loop, downwards from \<open>line.length - 1\<close> while \<open>i > -1\<close>.\<close>

function trailing_whitespaces :: "jstring \<Rightarrow> int \<Rightarrow> int" where
  "trailing_whitespaces ln i =
     (if i > - 1 then
        (if isWhitespace (ln ! nat i) = False then i else trailing_whitespaces ln (i - 1))
      else i)"
  by pat_completeness auto
termination
  by (relation "measure (\<lambda>(ln, i). nat (i + 1))") auto

declare trailing_whitespaces.simps [simp del]

text \<open>
  Reading a property of \<open>undefined\<close> or \<open>null\<close> throws a \<open>TypeError\<close>; \<open>what\<close> is
  the value read from and \<open>key\<close> the property.
\<close>

definition type_error :: "jstring \<Rightarrow> jstring \<Rightarrow> error" where
  "type_error what key =
     OtherError (str ''TypeError: Cannot read properties of '' @ what
       @ str '' (reading '' @ [39] @ key @ [39, 41])"

text \<open>
  \<open>marker\<close> is \<open>details.markers.modifiers[c]\<close>: \<open>undefined\<close> (\<open>None\<close>) when the array
  has no such entry, else \<open>[[k, i], null]\<close> or \<open>[[k, i], [k', i']]\<close>. \<open>marker[0]\<close> and
  \<open>marker[1][key]\<close> are read only where an edit is pushed.
\<close>

definition name_marker ::
  "((nat \<times> nat) \<times> (nat \<times> nat) option) option \<Rightarrow> error + (nat \<times> nat)" where
  "name_marker marker =
     (case marker of
        None \<Rightarrow> Inl (type_error (str ''undefined'') (str ''0''))
      | Some mk \<Rightarrow> Inr (fst mk))"

definition value_marker ::
  "((nat \<times> nat) \<times> (nat \<times> nat) option) option \<Rightarrow> jstring \<Rightarrow> error + (nat \<times> nat)" where
  "value_marker marker key =
     (case marker of
        None \<Rightarrow> Inl (type_error (str ''undefined'') (str ''1''))
      | Some mk \<Rightarrow>
          (case snd mk of None \<Rightarrow> Inl (type_error (str ''null'') key) | Some r \<Rightarrow> Inr r))"

text \<open>
  \<open>push_if differs read edits\<close>: nothing when the test of the \<open>if\<close> fails, else the
  marker is read and the edits made of it are pushed. \<open>then_diffs\<close> runs two steps in
  order; an error of the first one ends the function.
\<close>

definition push_if :: "bool \<Rightarrow> error + (nat \<times> nat) \<Rightarrow> ((nat \<times> nat) \<Rightarrow> diff list)
    \<Rightarrow> error + diff list" where
  "push_if differs marker edits =
     (if differs then (case marker of Inl e \<Rightarrow> Inl e | Inr r \<Rightarrow> Inr (edits r)) else Inr [])"

definition then_diffs :: "error + diff list \<Rightarrow> error + diff list \<Rightarrow> error + diff list" where
  "then_diffs a b =
     (case a of
        Inl e \<Rightarrow> Inl e
      | Inr ds \<Rightarrow> (case b of Inl e \<Rightarrow> Inl e | Inr ds' \<Rightarrow> Inr (ds @ ds')))"

text \<open>The body of the loop of \<open>format\<close> over the modifiers, for \<open>[opt, val]\<close>.\<close>

definition modifier_diffs ::
  "jstring \<times> jstring option \<Rightarrow> ((nat \<times> nat) \<times> (nat \<times> nat) option) option
     \<Rightarrow> error + diff list" where
  "modifier_diffs m marker =
     (let opt = fst m; val = snd m in
      then_diffs
        (push_if (length opt \<noteq> length (trimStart opt)) (name_marker marker)
           (\<lambda>r. [Delete (str ''no-modifier-whitespaces'') (int (fst r))
                   (int (length opt) - int (length (trimStart opt)))]))
     (then_diffs
        (push_if (length opt \<noteq> length (trimEnd opt)) (name_marker marker)
           (\<lambda>r. [Delete (str ''no-modifier-whitespaces'')
                   (int (snd r) - (int (length opt) - int (length (trimEnd opt))))
                   (int (length opt) - int (length (trimEnd opt)))]))
     (then_diffs
        (case map_of FILTER_MODIFIER_TYPE_TABLE (trim opt) of
           Some name \<Rightarrow>
             push_if True (name_marker marker)
               (\<lambda>r. [Delete (str ''full-modifier-name'') (int (fst r)) (int (snd r) - int (fst r)),
                       Create (str ''full-modifier-name'') (int (fst r)) name])
         | None \<Rightarrow> Inr [])
        (case val of
           None \<Rightarrow> Inr []
         | Some v \<Rightarrow>
             then_diffs
               (push_if (length v \<noteq> length (trimStart v)) (value_marker marker (str ''0''))
                  (\<lambda>r. [Delete (str ''no-modifier-value-whitespaces'') (int (fst r))
                          (int (length v) - int (length (trimStart v)))]))
               (push_if (length v \<noteq> length (trimEnd v)) (value_marker marker (str ''1''))
                  (\<lambda>r. [Delete (str ''no-modifier-value-whitespaces'')
                          (int (snd r) - (int (length v) - int (length (trimEnd v))))
                          (int (length v) - int (length (trimEnd v)))]))))))"

text \<open>
  The loop over \<open>details.modifiers\<close>, reading \<open>details.markers.modifiers\<close> at the same
  index \<open>c\<close>; past the end of that array the marker is \<open>undefined\<close>.
\<close>

fun format_modifiers ::
  "(jstring \<times> jstring option) list \<Rightarrow> ((nat \<times> nat) \<times> (nat \<times> nat) option) list
     \<Rightarrow> error + diff list" where
  "format_modifiers [] ks = Inr []"
| "format_modifiers (m # ms) ks =
     then_diffs (modifier_diffs m (case ks of [] \<Rightarrow> None | k # ks' \<Rightarrow> Some k))
       (format_modifiers ms (tl ks))"

fun record_line :: "filter_record \<Rightarrow> jstring" where
  "record_line (Others ln) = ln"
| "record_line (Network details) = line details"
| "record_line (Cosmetic ln h s ex) = ln"

definition whitespace_diffs :: "jstring \<Rightarrow> diff list" where
  "whitespace_diffs ln =
     (let i = leading_whitespaces ln 0;
          j = trailing_whitespaces ln (int (length ln) - 1)
      in (if i \<noteq> 0 then [Delete (str ''no-whitespaces'') 0 (int i)] else [])
         @ (if j \<noteq> int (length ln) - 1
            then [Delete (str ''no-whitespaces'') j (int (length ln) - j)] else []))"

fun format :: "filter_record \<Rightarrow> error + diff list" where
  "format (Network details) =
     (case format_modifiers (modifiers details) (markers_modifiers details) of
        Inl e \<Rightarrow> Inl e
      | Inr ds \<Rightarrow> Inr (whitespace_diffs (line details) @ ds))"
| "format details = Inr (whitespace_diffs (record_line details))"

text \<open>
  \<open>fix\<close> (here \<open>fix_line\<close>) applies the first diff to the line and rebases the diffs
  after it, then goes on with them. After a delete at \<open>off\<close> of \<open>n\<close>, a later delete that
  starts before \<open>off + n\<close> is moved to \<open>off\<close> when it starts after it and loses \<open>n\<close> of
  its length; any other later diff after \<open>off\<close> moves left by \<open>n\<close>. After a create of
  \<open>n\<close> code units every later diff moves right by \<open>n\<close>, and a delete grows by \<open>n\<close>.
\<close>

fun rebase_after_delete :: "int \<Rightarrow> int \<Rightarrow> diff \<Rightarrow> diff" where
  "rebase_after_delete off n (Delete r off' n') =
     (if off + n > off'
      then Delete r (if off' > off then off' - (off' - off) else off') (n' - n)
      else if off' > off then Delete r (off' - n) n'
      else Delete r off' n')"
| "rebase_after_delete off n (Create r off' t) =
     (if off' > off then Create r (off' - n) t else Create r off' t)"

fun rebase_after_create :: "int \<Rightarrow> diff \<Rightarrow> diff" where
  "rebase_after_create n (Delete r off' n') = Delete r (off' + n) (n' + n)"
| "rebase_after_create n (Create r off' t) = Create r (off' + n) t"

function fix_line :: "jstring \<Rightarrow> diff list \<Rightarrow> jstring" where
  "fix_line ln [] = ln"
| "fix_line ln (Delete r off n # ds) =
     fix_line (slice ln 0 off @ slice_from ln (off + n)) (map (rebase_after_delete off n) ds)"
| "fix_line ln (Create r off t # ds) =
     fix_line (slice ln 0 off @ t @ slice_from ln off)
       (map (rebase_after_create (int (length t))) ds)"
  by pat_completeness auto
termination
  by (relation "measure (\<lambda>(ln, ds). length ds)") auto

section \<open>The program: check\<close>






section \<open>Notions the properties are stated with\<close>

text \<open>
  The first steps of the loop body of \<open>check\<close> for one line:
  \<open>format(parseFilter(line))\<close>, and \<open>fix(line, diffs)\<close> on its result.
\<close>

definition diagnose :: "jstring \<Rightarrow> error + diff list" where
  "diagnose ln = (case parseFilter ln of Inl e \<Rightarrow> Inl e | Inr details \<Rightarrow> format details)"

definition corrected_line :: "jstring \<Rightarrow> error + jstring" where
  "corrected_line ln =
     (case diagnose ln of Inl e \<Rightarrow> Inl e | Inr diffs \<Rightarrow> Inr (fix_line ln diffs))"

text \<open>
  The code units the loop of \<open>parseFilter\<close> acts on. A line whose first of them is a
  \<open>#\<close> goes to \<open>parseCosmeticFilter\<close>.
\<close>

definition routing_char :: "nat \<Rightarrow> bool" where
  "routing_char c = (c = 91 \<or> c = 33 \<or> c = 47 \<or> c = 58 \<or> c = 94 \<or> c = 64 \<or> c = 124 \<or> c = 35)"

text \<open>
  The rejection conditions of the hostname extractor as the specification words them,
  on the pattern as a list: its first code unit, the last one once a trailing \<open>^\<close> is
  stripped, and the interior, which is what lies strictly between the two.
\<close>

definition ascii_letter :: "nat \<Rightarrow> bool" where
  "ascii_letter c = ((65 \<le> c \<and> c \<le> 90) \<or> (97 \<le> c \<and> c \<le> 122))"

definition ascii_digit :: "nat \<Rightarrow> bool" where
  "ascii_digit c = (48 \<le> c \<and> c \<le> 57)"

definition strip_separator :: "jstring \<Rightarrow> jstring" where
  "strip_separator p = (if p \<noteq> [] \<and> last p = 94 then butlast p else p)"

definition interior :: "jstring \<Rightarrow> jstring" where
  "interior p = butlast (tl (strip_separator p))"

fun adjacent_dots :: "jstring \<Rightarrow> bool" where
  "adjacent_dots (x # y # zs) = ((x = 46 \<and> y = 46) \<or> adjacent_dots (y # zs))"
| "adjacent_dots zs = False"

definition delimiter_or_wildcard :: "nat \<Rightarrow> bool" where
  "delimiter_or_wildcard c = (c = 124 \<or> c = 35 \<or> c = 47 \<or> c = 63 \<or> c = 38 \<or> c = 42)"

definition hostname_rejected :: "network_filter \<Rightarrow> bool" where
  "hostname_rejected details =
     (let p = pattern details in
        (p \<noteq> [] \<and> hd p = 47 \<and> last p = 47)
      \<or> matchBeginningOfAddress details \<or> matchEndOfAddress details
      \<or> length p < 3
      \<or> (ascii_letter (hd p) = False \<and> ascii_digit (hd p) = False)
      \<or> ascii_letter (last (strip_separator p)) = False
      \<or> list_ex delimiter_or_wildcard (interior p)
      \<or> adjacent_dots (interior p)
      \<or> 46 \<notin> set p)"

text \<open>Where the loop of \<open>transformToHostnamePattern\<close> returns \<open>null\<close> at index \<open>j\<close>.\<close>

definition refused_at :: "jstring \<Rightarrow> nat \<Rightarrow> bool" where
  "refused_at p j = (isPathnamePattern (p ! j) \<or> p ! j = 42
      \<or> (p ! j = 46 \<and> charCodeAt p (int j + 1) = Some 46))"



section \<open>Lemmas\<close>

subsection \<open>Strings\<close>

lemma slice_prefix: "slice (xs @ ys) 0 (int (length xs)) = xs"
  by (simp add: slice_def)

lemma slice_from_end: "slice_from xs (int (length xs)) = []"
  by (simp add: slice_from_def slice_def)

lemma charCodeAt_first: "charCodeAt p 0 = (if p = [] then None else Some (hd p))"
  by (simp add: charCodeAt_def hd_conv_nth)

lemma charCodeAt_last:
  "charCodeAt p (int (length p) - 1) = (if p = [] then None else Some (last p))"
proof (cases "p = []")
  case True
  then show ?thesis by (simp add: charCodeAt_def)
next
  case False
  then have "nat (int (length p) - 1) = length p - 1" by simp
  with False show ?thesis
    by (simp add: charCodeAt_def last_conv_nth)
qed

lemma charCodeAt_succ:
  "charCodeAt p (int j + 1) = (if j + 1 < length p then Some (p ! (j + 1)) else None)"
proof -
  have "nat (int j + 1) = j + 1" by simp
  then show ?thesis
    by (simp add: charCodeAt_def)
qed

lemma slice_take: "0 \<le> k \<Longrightarrow> k \<le> int (length p) \<Longrightarrow> slice p 0 k = take (nat k) p"
  by (simp add: slice_def min_def)


lemma slice_strip:
  assumes "p \<noteq> []"
  shows "slice p 0 (if charCodeAt p (int (length p) - 1) = Some 94
        then int (length p) - 1 else int (length p)) = strip_separator p"
proof -
  have c: "charCodeAt p (int (length p) - 1) = Some (last p)"
    using assms charCodeAt_last [of p] by simp
  have k: "nat (int (length p) - 1) = length p - 1" by simp
  show ?thesis
  proof (cases "last p = 94")
    case True
    have "slice p 0 (int (length p) - 1) = take (nat (int (length p) - 1)) p"
      using assms by (intro slice_take) auto
    with True assms show ?thesis
      by (simp add: c k strip_separator_def butlast_conv_take)
  next
    case False
    have "slice p 0 (int (length p)) = take (nat (int (length p))) p"
      by (intro slice_take) simp_all
    with False show ?thesis
      by (simp add: c strip_separator_def)
  qed
qed

subsection \<open>The parser\<close>

lemma cosmetic_marker_ats:
  "\<forall>j. i \<le> j \<and> j < length ln \<longrightarrow> ln ! j = 64 \<Longrightarrow>
   cosmetic_marker ln i ex = Inr (max i (length ln), ex \<or> i < length ln)"
proof (induction ln i ex rule: cosmetic_marker.induct)
  case (1 ln i ex)
  show ?case
  proof (cases "i < length ln")
    case True
    with "1.prems" have at: "ln ! i = 64" by simp
    from "1.prems" have "\<forall>j. i + 1 \<le> j \<and> j < length ln \<longrightarrow> ln ! j = 64" by simp
    with "1.IH" True at
    have "cosmetic_marker ln (i + 1) True = Inr (max (i + 1) (length ln), True \<or> i + 1 < length ln)"
      by blast
    with True at show ?thesis
      by (subst cosmetic_marker.simps) (simp add: max_def)
  next
    case False
    then show ?thesis
      by (subst cosmetic_marker.simps) (simp add: max_def)
  qed
qed

lemma classify_to_marker:
  "i \<le> length pre \<Longrightarrow> list_all (\<lambda>c. routing_char c = False) pre \<Longrightarrow>
   classify (pre @ 35 # rest) i = parseCosmeticFilter (pre @ 35 # rest) (length pre)"
proof (induction "length pre - i" arbitrary: i)
  case 0
  then have i: "i = length pre" by simp
  show ?case
    by (subst classify.simps) (simp add: i)
next
  case (Suc d)
  then have lt: "i < length pre" by simp
  with Suc.prems(2) have "routing_char (pre ! i) = False"
    by (simp add: list_all_length)
  then have no: "pre ! i \<noteq> 91" "pre ! i \<noteq> 33" "pre ! i \<noteq> 47" "pre ! i \<noteq> 58"
      "pre ! i \<noteq> 94" "pre ! i \<noteq> 64" "pre ! i \<noteq> 124" "pre ! i \<noteq> 35"
    by (auto simp: routing_char_def)
  from Suc.hyps(2) lt have "d = length pre - (i + 1)" by simp
  with Suc.hyps(1) [of "i + 1"] lt Suc.prems(2)
  have IH: "classify (pre @ 35 # rest) (i + 1) = parseCosmeticFilter (pre @ 35 # rest) (length pre)"
    by simp
  from lt no IH show ?case
    by (subst classify.simps) (simp add: nth_append)
qed




subsection \<open>The hostname extractor\<close>

lemma isAlphabet_ascii: "isAlphabet c = ascii_letter c"
  by (auto simp: isAlphabet_def ascii_letter_def Let_def)

lemma isNumeric_ascii: "isNumeric c = ascii_digit c"
  by (simp add: isNumeric_def ascii_digit_def)

lemma adjacent_dots_nth:
  "adjacent_dots xs = (\<exists>k. k + 1 < length xs \<and> xs ! k = 46 \<and> xs ! (k + 1) = 46)"
proof (induction xs rule: adjacent_dots.induct)
  case (1 x y zs)
  have "(\<exists>k. k + 1 < length (x # y # zs) \<and> (x # y # zs) ! k = 46 \<and> (x # y # zs) ! (k + 1) = 46)
        = ((x = 46 \<and> y = 46) \<or> (\<exists>k. k + 1 < length (y # zs) \<and> (y # zs) ! k = 46 \<and> (y # zs) ! (k + 1) = 46))"
    (is "?L = (?A \<or> ?R)")
  proof
    assume ?L
    then obtain k where k: "k + 1 < length (x # y # zs)" "(x # y # zs) ! k = 46"
        "(x # y # zs) ! (k + 1) = 46" by blast
    show "?A \<or> ?R"
    proof (cases k)
      case 0
      with k show ?thesis by simp
    next
      case (Suc k')
      with k have "k' + 1 < length (y # zs) \<and> (y # zs) ! k' = 46 \<and> (y # zs) ! (k' + 1) = 46"
        by simp
      then show ?thesis by blast
    qed
  next
    assume "?A \<or> ?R"
    then show ?L
    proof
      assume ?A
      then have "0 + 1 < length (x # y # zs) \<and> (x # y # zs) ! 0 = 46 \<and> (x # y # zs) ! (0 + 1) = 46"
        by simp
      then show ?L by blast
    next
      assume ?R
      then obtain k where "k + 1 < length (y # zs)" "(y # zs) ! k = 46" "(y # zs) ! (k + 1) = 46"
        by blast
      then have "Suc k + 1 < length (x # y # zs) \<and> (x # y # zs) ! Suc k = 46
          \<and> (x # y # zs) ! (Suc k + 1) = 46"
        by simp
      then show ?L by blast
    qed
  qed
  with 1 show ?case by simp
qed simp_all


lemma ex_range_step:
  "(\<exists>j::nat. i \<le> j \<and> j < e \<and> Q j) = (i < e \<and> (Q i \<or> (\<exists>j. i + 1 \<le> j \<and> j < e \<and> Q j)))"
  (is "?L = ?R")
proof
  assume ?L
  then obtain j where j: "i \<le> j" "j < e" "Q j" by blast
  show ?R
  proof (cases "j = i")
    case True
    with j show ?thesis by simp
  next
    case False
    with j have "i + 1 \<le> j \<and> j < e \<and> Q j" by auto
    with j show ?thesis by auto
  qed
next
  assume ?R
  then show ?L
    by (metis Suc_eq_plus1 Suc_leD order_refl)
qed

lemma hostname_chars_char:
  "hostname_chars p e i b =
     (if \<exists>j. i \<le> j \<and> j < e \<and> refused_at p j then None
      else Some (b \<or> (\<exists>j. i \<le> j \<and> j < e \<and> p ! j = 46)))"
proof (induction p e i b rule: hostname_chars.induct)
  case (1 p e i b)
  show ?case
  proof (cases "i < e")
    case False
    then show ?thesis
      by (subst hostname_chars.simps) auto
  next
    case lt: True
    show ?thesis
    proof (cases "refused_at p i")
      case True
      with lt have "\<exists>j. i \<le> j \<and> j < e \<and> refused_at p j" by blast
      moreover from True lt have "hostname_chars p e i b = None"
        by (subst hostname_chars.simps) (auto simp: refused_at_def)
      ultimately show ?thesis by simp
    next
      case ok: False
      show ?thesis
      proof (cases "p ! i = 46")
        case True
        with ok lt "1.IH"(1)
        have IH: "hostname_chars p e (i + 1) True =
            (if \<exists>j. i + 1 \<le> j \<and> j < e \<and> refused_at p j then None
             else Some (True \<or> (\<exists>j. i + 1 \<le> j \<and> j < e \<and> p ! j = 46)))"
          by (simp add: refused_at_def)
        from True ok lt have "hostname_chars p e i b = hostname_chars p e (i + 1) True"
          by (subst hostname_chars.simps) (simp add: refused_at_def)
        moreover have "(\<exists>j. i \<le> j \<and> j < e \<and> refused_at p j)
            = (\<exists>j. i + 1 \<le> j \<and> j < e \<and> refused_at p j)"
          using ex_range_step [of i e "refused_at p"] ok lt by simp
        moreover have "\<exists>j. i \<le> j \<and> j < e \<and> p ! j = 46"
          using True lt by blast
        ultimately show ?thesis
          using IH by auto
      next
        case False
        with ok lt "1.IH"(2)
        have IH: "hostname_chars p e (i + 1) b =
            (if \<exists>j. i + 1 \<le> j \<and> j < e \<and> refused_at p j then None
             else Some (b \<or> (\<exists>j. i + 1 \<le> j \<and> j < e \<and> p ! j = 46)))"
          by (simp add: refused_at_def)
        from False ok lt have "hostname_chars p e i b = hostname_chars p e (i + 1) b"
          by (subst hostname_chars.simps) (simp add: refused_at_def)
        moreover have "(\<exists>j. i \<le> j \<and> j < e \<and> refused_at p j)
            = (\<exists>j. i + 1 \<le> j \<and> j < e \<and> refused_at p j)"
          using ex_range_step [of i e "refused_at p"] ok lt by simp
        moreover have "(\<exists>j. i \<le> j \<and> j < e \<and> p ! j = 46)
            = (\<exists>j. i + 1 \<le> j \<and> j < e \<and> p ! j = 46)"
          using ex_range_step [of i e "\<lambda>j. p ! j = 46"] False lt by simp
        ultimately show ?thesis
          using IH by auto
      qed
    qed
  qed
qed


lemma interior_nth:
  assumes "3 \<le> length p" and "e = length p - (if last p = 94 then 2 else 1)"
  shows "strip_separator p = take (e + 1) p"
    and "interior p = map (\<lambda>j. p ! j) [1..<e]"
proof -
  from assms have ne: "p \<noteq> []" by auto
  from assms have "length p - 1 = Suc (length p - 2)" by arith
  with assms ne show s: "strip_separator p = take (e + 1) p"
    by (auto simp: strip_separator_def butlast_conv_take)
  from assms have e: "e + 1 \<le> length p" "1 \<le> e" by (auto split: if_splits)
  show "interior p = map (\<lambda>j. p ! j) [1..<e]"
  proof (rule nth_equalityI)
    from e show "length (interior p) = length (map (\<lambda>j. p ! j) [1..<e])"
      by (simp add: interior_def s)
  next
    fix k assume "k < length (interior p)"
    with e have k: "k < e - 1" by (simp add: interior_def s)
    with e have "interior p ! k = p ! (k + 1)"
      by (simp add: interior_def s nth_butlast nth_tl)
    with k show "interior p ! k = map (\<lambda>j. p ! j) [1..<e] ! k"
      by simp
  qed
qed

lemma transform_code:
  assumes run: "\<not> (isRegexpPattern details \<or> matchEndOfAddress details
      \<or> matchBeginningOfAddress details \<or> length (pattern details) < 3)"
    and p: "p = pattern details"
    and e: "e = length p - (if last p = 94 then 2 else 1)"
  shows "transformToHostnamePattern details =
      (if ascii_digit (p ! 0) = False \<and> ascii_letter (p ! 0) = False then None
       else if ascii_letter (p ! e) = False then None
       else (case hostname_chars p e 1 False of
               None \<Rightarrow> None
             | Some hasDot \<Rightarrow> if hasDot = False then None else Some (strip_separator p)))"
proof -
  from run p have ne: "p \<noteq> []" by auto
  then have nl: "p ! (length p - 1) = last p"
    by (simp add: last_conv_nth)
  have bk: "length p - (if p ! (length p - 1) = 94 then 2 else 1 :: nat) = e"
    by (simp only: nl e)
  have "transformToHostnamePattern details =
      (if isNumeric (p ! 0) = False \<and> isAlphabet (p ! 0) = False then None
       else if isAlphabet (p ! (length p - (if p ! (length p - 1) = 94 then 2 else 1 :: nat))) = False
         then None
       else (case hostname_chars p (length p - (if p ! (length p - 1) = 94 then 2 else 1 :: nat)) 1 False of
               None \<Rightarrow> None
             | Some hasDot \<Rightarrow> if hasDot = False then None
                 else Some (slice p 0 (if charCodeAt p (int (length p) - 1) = Some 94
                   then int (length p) - 1 else int (length p)))))"
    using run unfolding transformToHostnamePattern_def Let_def p [symmetric]
    by (simp only: if_False)
  then show ?thesis
    unfolding bk slice_strip [OF ne] isAlphabet_ascii isNumeric_ascii .
qed

subsection \<open>The compilers and check\<close>

lemma except_fields [simp]:
  "exceptions (except h st) = set_add h (exceptions st)"
  "hostnames (except h st) = set_delete h (hostnames st)"
  "stderr (except h st) = stderr st"
  by (simp_all add: except_def)

















section \<open>The claims\<close>

text \<open>
  Claim C1, on the code. The claim: for the lines \<open>||a.example^\<close> and
  \<open>@@||a.example^\<close> in this order, non-strict \<open>compileHosts\<close> ends with an empty blocked
  set and \<open>a.example\<close> excepted; in the reverse order \<open>a.example\<close> ends blocked. What the
  code computes: in both orders \<open>a.example\<close> ends in \<open>hostnames\<close> (blocked), nothing is
  ever added to \<open>exceptions\<close>, and the output is the line \<open>127.0.0.1 a.example\<close>. The
  pattern of the exception line is \<open>||a.example^\<close>, anchor included, which the hostname
  extractor refuses.
\<close>

theorem C1_exception_line_has_no_effect:
  "hostnames (compileHosts_state (str ''||a.example^'' @ [10] @ str ''@@||a.example^'')
      \<lparr>strict = False, debug = d\<rparr>) = [Some (str ''a.example'')]
   \<and> exceptions (compileHosts_state (str ''||a.example^'' @ [10] @ str ''@@||a.example^'')
      \<lparr>strict = False, debug = d\<rparr>) = []
   \<and> compileHosts (str ''||a.example^'' @ [10] @ str ''@@||a.example^'')
      \<lparr>strict = False, debug = d\<rparr> = str ''127.0.0.1 a.example''
   \<and> hostnames (compileHosts_state (str ''@@||a.example^'' @ [10] @ str ''||a.example^'')
      \<lparr>strict = False, debug = d\<rparr>) = [Some (str ''a.example'')]
   \<and> exceptions (compileHosts_state (str ''@@||a.example^'' @ [10] @ str ''||a.example^'')
      \<lparr>strict = False, debug = d\<rparr>) = []"
  by code_simp

text \<open>
  Claim C2, on the code. The claim: when \<open>matchSubdomains\<close> is set the pattern begins
  right after the \<open>||\<close> anchor, which follows any \<open>@@\<close> prefix; when
  \<open>matchBeginningOfAddress\<close> is set it begins right after the \<open>|\<close>; and the pattern
  excludes the modifier section and a trailing \<open>|\<close> anchor. What the code computes:
  for \<open>@@||a.example^\<close> the flag \<open>matchSubdomains\<close> is set and the pattern is
  \<open>||a.example^\<close>, from offset \<open>2\<close> (the start marker is the string \<open>02\<close>) and not from
  offset \<open>4\<close>; for \<open>@@|a.example^\<close> the flag \<open>matchBeginningOfAddress\<close> is set and the
  pattern is \<open>@|a.example^\<close>, from offset \<open>1\<close>; for \<open>||a.com|\<close> the end anchor is detected
  and stays in the pattern \<open>a.com|\<close>, while for \<open>||a.com|$3p\<close> it is dropped (\<open>a.com\<close>);
  for \<open>$3p\<close> the end marker is \<open>-1\<close> and the pattern \<open>$3\<close> lies in the modifier section.
\<close>

theorem C2_pattern_keeps_anchor:
  "parseFilter (str ''@@||a.example^'') =
     Inr (Network \<lparr> line = str ''@@||a.example^'', pattern = str ''||a.example^'',
        modifiers = [], isException = True, matchSubdomains = True,
        matchBeginningOfAddress = False, matchEndOfAddress = False,
        markers_pattern = (JString (str ''02''), 14), markers_modifiers = [] \<rparr>)
   \<and> parseFilter (str ''@@|a.example^'') =
     Inr (Network \<lparr> line = str ''@@|a.example^'', pattern = str ''@|a.example^'',
        modifiers = [], isException = True, matchSubdomains = False,
        matchBeginningOfAddress = True, matchEndOfAddress = False,
        markers_pattern = (JString (str ''01''), 13), markers_modifiers = [] \<rparr>)
   \<and> parseFilter (str ''||a.com|'') =
     Inr (Network \<lparr> line = str ''||a.com|'', pattern = str ''a.com|'',
        modifiers = [], isException = False, matchSubdomains = True,
        matchBeginningOfAddress = False, matchEndOfAddress = True,
        markers_pattern = (JString (str ''02''), 8), markers_modifiers = [] \<rparr>)
   \<and> parseFilter (str ''||a.com|$3p'') =
     Inr (Network \<lparr> line = str ''||a.com|$3p'', pattern = str ''a.com'',
        modifiers = [(str ''3p'', None)], isException = False, matchSubdomains = True,
        matchBeginningOfAddress = False, matchEndOfAddress = True,
        markers_pattern = (JString (str ''02''), 7), markers_modifiers = [((9, 11), None)] \<rparr>)
   \<and> parseFilter (str ''$3p'') =
     Inr (Network \<lparr> line = str ''$3p'', pattern = str ''$3'',
        modifiers = [(str ''3p'', None)], isException = False, matchSubdomains = False,
        matchBeginningOfAddress = False, matchEndOfAddress = False,
        markers_pattern = (JString (str ''00''), - 1), markers_modifiers = [((1, 3), None)] \<rparr>)"
  by code_simp

text \<open>
  Claim C3, on the code. The claim: for the line \<open>@@||ads.example.com/path.js^\<close>,
  non-strict \<open>compileHosts\<close> excepts \<open>ads.example.com\<close>, and strict mode adds nothing to
  either set. What the code computes: in non-strict mode both sets stay empty (the
  pattern cut at the first \<open>/\<close> is \<open>||ads.example.com\<close>, which the extractor refuses);
  in strict mode \<open>null\<close> is added to \<open>exceptions\<close>.
\<close>

theorem C3_path_level_exception_not_taken:
  "compileHosts_state (str ''@@||ads.example.com/path.js^'') \<lparr>strict = False, debug = d\<rparr>
     = hosts_init
   \<and> compileHosts_state (str ''@@||ads.example.com/path.js^'') \<lparr>strict = True, debug = d\<rparr>
     = \<lparr>exceptions = [None], hostnames = [], stderr = []\<rparr>
   \<and> compileHosts (str ''@@||ads.example.com/path.js^'') \<lparr>strict = True, debug = d\<rparr> = []"
  by code_simp

text \<open>
  Claim C4, on the code. The claim: the line \<open>||a.example^$redirect=a\,b.js\<close> (one
  backslash before the comma) has exactly one modifier, \<open>redirect\<close>, with the value
  \<open>a\,b.js\<close>. What the code computes: two modifiers, \<open>redirect\<close> with the value \<open>a\\<close>
  and \<open>b.js\<close> without a value. The value loop passes over the backslash and then
  takes the comma as the end of the value.
\<close>

theorem C4_escaped_comma_splits:
  "parseFilter (str ''||a.example^$redirect=a'' @ [92] @ str '',b.js'') =
     Inr (Network \<lparr> line = str ''||a.example^$redirect=a'' @ [92] @ str '',b.js'',
        pattern = str ''a.example'',
        modifiers = [(str ''redirect'', Some (str ''a'' @ [92])), (str ''b.js'', None)],
        isException = False, matchSubdomains = True,
        matchBeginningOfAddress = False, matchEndOfAddress = False,
        markers_pattern = (JString (str ''02''), 11),
        markers_modifiers = [((13, 21), Some (22, 24)), ((25, 29), None)] \<rparr>)"
  by code_simp

text \<open>
  Claim C5. \<open>transformToHostnamePattern\<close> returns \<open>null\<close> exactly when one of the
  rejection conditions holds: the pattern is delimited by \<open>/\<close>, an address anchor flag
  is set, the pattern has fewer than three code units, its first is neither an ASCII
  letter nor a digit, its last (a trailing \<open>^\<close> stripped) is not an ASCII letter, the
  interior has one of \<open>| # / ? & *\<close> or two adjacent dots, or the pattern has no dot;
  otherwise it returns the pattern with one trailing \<open>^\<close> stripped.
\<close>

theorem C5_hostname_extractor:
  "transformToHostnamePattern details =
     (if hostname_rejected details then None
      else Some (strip_separator (pattern details)))"
proof (cases "isRegexpPattern details \<or> matchEndOfAddress details
    \<or> matchBeginningOfAddress details \<or> length (pattern details) < 3")
  case True
  then have "transformToHostnamePattern details = None"
    by (simp add: transformToHostnamePattern_def Let_def)
  moreover have "hostname_rejected details"
  proof (cases "isRegexpPattern details")
    case True
    then have "pattern details \<noteq> [] \<and> hd (pattern details) = 47 \<and> last (pattern details) = 47"
      by (auto simp: isRegexpPattern_def charCodeAt_first charCodeAt_last split: if_splits)
    then show ?thesis
      by (simp add: hostname_rejected_def Let_def)
  next
    case False
    with True show ?thesis
      by (auto simp: hostname_rejected_def Let_def)
  qed
  ultimately show ?thesis by simp
next
  case False
  define p where "p = pattern details"
  define n where "n = length p"
  define e where "e = length p - (if last p = 94 then 2 else 1)"
  from False have n3: "3 \<le> n" and flags: "matchEndOfAddress details = False"
      "matchBeginningOfAddress details = False" and nre: "isRegexpPattern details = False"
    by (auto simp: p_def n_def)
  from n3 have ne: "p \<noteq> []" by (auto simp: n_def)
  have hd0: "hd p = p ! 0" using ne by (simp add: hd_conv_nth)
  have lastn: "last p = p ! (n - 1)" using ne by (simp add: last_conv_nth n_def)
  from n3 have e_bounds: "1 \<le> e" "e + 1 \<le> n" "e < n"
    by (auto simp: e_def n_def)
  have strip: "strip_separator p = take (e + 1) p"
    and inter: "interior p = map (\<lambda>j. p ! j) [1..<e]"
    using interior_nth [of p e] n3 e_def by (simp_all add: n_def)
  have last_strip: "last (strip_separator p) = p ! e"
    using e_bounds by (simp add: strip n_def take_Suc_conv_app_nth)
  have nore: "\<not> (hd p = 47 \<and> last p = 47)"
    using nre ne
    by (auto simp: isRegexpPattern_def charCodeAt_first charCodeAt_last p_def [symmetric])
  have code: "transformToHostnamePattern details =
      (if ascii_digit (p ! 0) = False \<and> ascii_letter (p ! 0) = False then None
       else if ascii_letter (p ! e) = False then None
       else (case hostname_chars p e 1 False of
               None \<Rightarrow> None
             | Some hasDot \<Rightarrow> if hasDot = False then None else Some (strip_separator p)))"
    using False p_def e_def by (rule transform_code)
  have spec: "hostname_rejected details =
      ((ascii_letter (p ! 0) = False \<and> ascii_digit (p ! 0) = False)
       \<or> ascii_letter (p ! e) = False
       \<or> (\<exists>j. 1 \<le> j \<and> j < e \<and> delimiter_or_wildcard (p ! j))
       \<or> (\<exists>j. 1 \<le> j \<and> j + 1 < e \<and> p ! j = 46 \<and> p ! (j + 1) = 46)
       \<or> 46 \<notin> set p)"
  proof -
    have a: "list_ex delimiter_or_wildcard (interior p)
        = (\<exists>j. 1 \<le> j \<and> j < e \<and> delimiter_or_wildcard (p ! j))"
      by (auto simp: inter list_ex_iff)
    have b: "adjacent_dots (interior p)
        = (\<exists>j. 1 \<le> j \<and> j + 1 < e \<and> p ! j = 46 \<and> p ! (j + 1) = 46)"
    proof
      assume "adjacent_dots (interior p)"
      then obtain k where "k + 1 < e - 1" "p ! (k + 1) = 46" "p ! (k + 2) = 46"
        by (auto simp: adjacent_dots_nth inter)
      then have "1 \<le> k + 1 \<and> (k + 1) + 1 < e \<and> p ! (k + 1) = 46 \<and> p ! ((k + 1) + 1) = 46"
        by (simp add: numeral_2_eq_2)
      then show "\<exists>j. 1 \<le> j \<and> j + 1 < e \<and> p ! j = 46 \<and> p ! (j + 1) = 46"
        by blast
    next
      assume "\<exists>j. 1 \<le> j \<and> j + 1 < e \<and> p ! j = 46 \<and> p ! (j + 1) = 46"
      then obtain j where j: "1 \<le> j" "j + 1 < e" "p ! j = 46" "p ! (j + 1) = 46" by blast
      then have "(j - 1) + 1 < length (interior p) \<and> interior p ! (j - 1) = 46
          \<and> interior p ! ((j - 1) + 1) = 46"
        by (simp add: inter)
      then show "adjacent_dots (interior p)"
        unfolding adjacent_dots_nth by blast
    qed
    show ?thesis
      using flags nore n3
      by (auto simp add: hostname_rejected_def Let_def p_def [symmetric] n_def [symmetric]
          a b hd0 last_strip)
  qed
  show ?thesis
  proof (cases "(ascii_letter (p ! 0) = False \<and> ascii_digit (p ! 0) = False)
      \<or> ascii_letter (p ! e) = False")
    case True
    then show ?thesis
      unfolding code spec by auto
  next
    case ok: False
    have first: "p ! 0 \<noteq> 46" and lst: "p ! e \<noteq> 46"
      using ok by (auto simp: ascii_letter_def ascii_digit_def)
    have tail: "e + 1 < n \<Longrightarrow> p ! (n - 1) \<noteq> 46"
      using lastn by (auto simp: e_def n_def split: if_splits)
    have refused: "(\<exists>j. 1 \<le> j \<and> j < e \<and> refused_at p j)
        = ((\<exists>j. 1 \<le> j \<and> j < e \<and> delimiter_or_wildcard (p ! j))
           \<or> (\<exists>j. 1 \<le> j \<and> j + 1 < e \<and> p ! j = 46 \<and> p ! (j + 1) = 46))"
      (is "?L = (?A \<or> ?B)")
    proof
      assume ?L
      then obtain j where j: "1 \<le> j" "j < e" "refused_at p j" by blast
      show "?A \<or> ?B"
      proof (cases "delimiter_or_wildcard (p ! j)")
        case True
        with j show ?thesis by blast
      next
        case False
        with j have dots: "p ! j = 46" "charCodeAt p (int j + 1) = Some 46"
          by (auto simp: refused_at_def delimiter_or_wildcard_def isPathnamePattern_def)
        from dots(2) have nxt: "p ! (j + 1) = 46"
          by (auto simp: charCodeAt_succ split: if_splits)
        with lst have "j + 1 \<noteq> e" by auto
        with j have "j + 1 < e" by simp
        with j dots nxt show ?thesis by blast
      qed
    next
      assume "?A \<or> ?B"
      then show ?L
      proof
        assume ?A
        then show ?L
          by (auto simp: refused_at_def delimiter_or_wildcard_def isPathnamePattern_def)
      next
        assume ?B
        then obtain j where j: "1 \<le> j" "j + 1 < e" "p ! j = 46" "p ! (j + 1) = 46" by blast
        with e_bounds have "charCodeAt p (int j + 1) = Some 46"
          by (simp add: charCodeAt_succ n_def)
        with j have "1 \<le> j \<and> j < e \<and> refused_at p j"
          by (simp add: refused_at_def)
        then show ?L by blast
      qed
    qed
    have dot: "(\<exists>j. 1 \<le> j \<and> j < e \<and> p ! j = 46) = (46 \<in> set p)"
    proof
      assume "\<exists>j. 1 \<le> j \<and> j < e \<and> p ! j = 46"
      then obtain j where "j < e" "p ! j = 46" by blast
      with e_bounds show "46 \<in> set p"
        by (auto simp: in_set_conv_nth n_def intro!: exI [of _ j])
    next
      assume "46 \<in> set p"
      then obtain j where j: "j < n" "p ! j = 46"
        by (auto simp: in_set_conv_nth n_def)
      with first have "1 \<le> j" by (cases j) auto
      moreover have "j < e"
      proof (rule ccontr)
        assume "\<not> j < e"
        with j lst have "e < j" by (cases "j = e") auto
        with j have "e + 1 < n \<and> j = n - 1"
          by (auto simp: e_def n_def split: if_splits)
        with tail j show False by simp
      qed
      ultimately show "\<exists>j. 1 \<le> j \<and> j < e \<and> p ! j = 46"
        using j by blast
    qed
    show ?thesis
      unfolding code spec hostname_chars_char
      using ok refused dot by (auto simp: p_def)
  qed
qed

theorem C5_hostname_extractor_witness:
  "hostname_rejected \<lparr> line = str ''||a.example^'', pattern = str ''a.example^'',
        modifiers = [], isException = False, matchSubdomains = True,
        matchBeginningOfAddress = False, matchEndOfAddress = False,
        markers_pattern = (JString (str ''02''), 12), markers_modifiers = [] \<rparr> = False
   \<and> transformToHostnamePattern \<lparr> line = str ''||a.example^'', pattern = str ''a.example^'',
        modifiers = [], isException = False, matchSubdomains = True,
        matchBeginningOfAddress = False, matchEndOfAddress = False,
        markers_pattern = (JString (str ''02''), 12), markers_modifiers = [] \<rparr>
       = Some (str ''a.example'')
   \<and> hostname_rejected \<lparr> line = str ''||a..example^'', pattern = str ''a..example^'',
        modifiers = [], isException = False, matchSubdomains = True,
        matchBeginningOfAddress = False, matchEndOfAddress = False,
        markers_pattern = (JString (str ''02''), 13), markers_modifiers = [] \<rparr> = True
   \<and> transformToHostnamePattern \<lparr> line = str ''||a..example^'', pattern = str ''a..example^'',
        modifiers = [], isException = False, matchSubdomains = True,
        matchBeginningOfAddress = False, matchEndOfAddress = False,
        markers_pattern = (JString (str ''02''), 13), markers_modifiers = [] \<rparr> = None"
proof -
  let ?ok = "\<lparr> line = str ''||a.example^'', pattern = str ''a.example^'',
        modifiers = [], isException = False, matchSubdomains = True,
        matchBeginningOfAddress = False, matchEndOfAddress = False,
        markers_pattern = (JString (str ''02''), 12), markers_modifiers = [] \<rparr>"
  let ?dots = "\<lparr> line = str ''||a..example^'', pattern = str ''a..example^'',
        modifiers = [], isException = False, matchSubdomains = True,
        matchBeginningOfAddress = False, matchEndOfAddress = False,
        markers_pattern = (JString (str ''02''), 13), markers_modifiers = [] \<rparr>"
  have a: "hostname_rejected ?ok = False"
    by code_simp
  have b: "hostname_rejected ?dots = True"
    by code_simp
  have c: "strip_separator (str ''a.example^'') = str ''a.example''"
    by code_simp
  from C5_hostname_extractor [of ?ok] C5_hostname_extractor [of ?dots] a b c
  show ?thesis
    by simp
qed

text \<open>
  Claim C6, on the code. The claim: applying the diagnosed edits to a line gives a
  line whose diagnosis is empty. What the code computes for the line \<open>a b \<close> (with a
  trailing space): the one edit deletes two code units from offset \<open>2\<close>, the corrected
  line is \<open>a \<close>, and its diagnosis is again one edit.
\<close>

theorem C6_corrected_line_diagnosed_again:
  "diagnose (str ''a b '') = Inr [Delete (str ''no-whitespaces'') 2 2]
   \<and> corrected_line (str ''a b '') = Inr (str ''a '')
   \<and> diagnose (str ''a '') = Inr [Delete (str ''no-whitespaces'') 0 2]"
  by code_simp

text \<open>
  Claim C7, on the code. The claim: a trailing run of whitespace gives a delete that
  starts at the first whitespace of the run and has the length of the run; a leading
  run gives a delete of exactly the run. What the code computes for
  \<open>||a.example^\<close> between two spaces on each side (offsets \<open>0\<close>, \<open>1\<close> and \<open>14\<close>,
  \<open>15\<close>): the leading delete is \<open>(0, 2)\<close>, the trailing one is \<open>(13, 3)\<close>, which starts
  at the \<open>^\<close> before the run and is one longer than the run, and the corrected line is
  \<open>||a.example\<close>, without the \<open>^\<close>.
\<close>

theorem C7_trailing_delete_starts_one_early:
  "diagnose ([32, 32] @ str ''||a.example^'' @ [32, 32])
     = Inr [Delete (str ''no-whitespaces'') 0 2, Delete (str ''no-whitespaces'') 13 3]
   \<and> corrected_line ([32, 32] @ str ''||a.example^'' @ [32, 32]) = Inr (str ''||a.example'')"
  by code_simp

text \<open>
  Claim C8. For the single line \<open>||ads.example^$3p\<close>, non-strict \<open>compileHosts\<close> puts
  \<open>ads.example\<close> into the excepted set and not into the blocked set, and the output has
  no line; in strict mode \<open>ads.example\<close> is in the blocked set and the output is the line
  \<open>127.0.0.1 ads.example\<close>. This holds with and without \<open>debug\<close>.
\<close>

theorem C8_third_party_promotion:
  "exceptions (compileHosts_state (str ''||ads.example^$3p'') \<lparr>strict = False, debug = d\<rparr>)
     = [Some (str ''ads.example'')]
   \<and> hostnames (compileHosts_state (str ''||ads.example^$3p'') \<lparr>strict = False, debug = d\<rparr>) = []
   \<and> compileHosts (str ''||ads.example^$3p'') \<lparr>strict = False, debug = d\<rparr> = []
   \<and> hostnames (compileHosts_state (str ''||ads.example^$3p'') \<lparr>strict = True, debug = d\<rparr>)
     = [Some (str ''ads.example'')]
   \<and> exceptions (compileHosts_state (str ''||ads.example^$3p'') \<lparr>strict = True, debug = d\<rparr>) = []
   \<and> compileHosts (str ''||ads.example^$3p'') \<lparr>strict = True, debug = d\<rparr>
     = str ''127.0.0.1 ads.example''"
  by code_simp



text \<open>
  Claim C10. A line that goes to cosmetic parsing and ends inside the marker (after
  the first \<open>#\<close> there are only \<open>@\<close>, or nothing) does not raise: \<open>parseFilter\<close> returns
  a cosmetic filter with the text before the \<open>#\<close> as hostname, the empty selector, and
  the exception flag set exactly when there is an \<open>@\<close>.
\<close>

theorem C10_unterminated_marker:
  assumes "list_all (\<lambda>c. routing_char c = False) pre"
  shows "parseFilter (pre @ 35 # replicate n 64)
           = Inr (Cosmetic (pre @ 35 # replicate n 64) pre [] (0 < n))"
proof -
  let ?ln = "pre @ 35 # replicate n 64"
  have ats: "\<forall>j. length pre + 1 \<le> j \<and> j < length ?ln \<longrightarrow> ?ln ! j = 64"
    by (auto simp: nth_append nth_Cons')
  have "cosmetic_marker ?ln (length pre + 1) False
          = Inr (max (length pre + 1) (length ?ln), False \<or> length pre + 1 < length ?ln)"
    by (rule cosmetic_marker_ats [OF ats])
  then have m: "cosmetic_marker ?ln (length pre + 1) False = Inr (length ?ln, 0 < n)"
    by (simp add: max_def)
  have "parseFilter ?ln = classify ?ln 0"
    by (simp add: parseFilter_def)
  also have "\<dots> = parseCosmeticFilter ?ln (length pre)"
    using assms by (intro classify_to_marker) simp_all
  also have "\<dots> = Inr (Cosmetic ?ln pre [] (0 < n))"
    unfolding parseCosmeticFilter_def m
    using slice_prefix [of pre "35 # replicate n 64"] slice_from_end [of ?ln]
    by simp
  finally show ?thesis .
qed

theorem C10_unterminated_marker_witness:
  "list_all (\<lambda>c. routing_char c = False) (str ''example.com'')
   \<and> parseFilter (str ''example.com#@'')
       = Inr (Cosmetic (str ''example.com#@'') (str ''example.com'') [] True)
   \<and> parseFilter (str ''example.com#'')
       = Inr (Cosmetic (str ''example.com#'') (str ''example.com'') [] False)"
proof -
  have h: "list_all (\<lambda>c. routing_char c = False) (str ''example.com'')"
    by (simp add: str_def routing_char_def)
  from C10_unterminated_marker [OF h, of 1] C10_unterminated_marker [OF h, of 0] h
  show ?thesis
    by (simp add: str_def)
qed

end
